theory Spec2Isabelle
  imports Complex_Main
begin

section \<open>Numbers and vectors\<close>

text \<open>
  The store keeps JavaScript numbers. Identifiers, score, lap and health only ever
  hold integers and are modelled as \<^typ>\<open>int\<close>; times, coordinates and random draws
  are modelled as \<^typ>\<open>real\<close>, the exact arithmetic that the doubles approximate.
  The vector and quaternion operations are those of the three.js library that the
  source calls (\<^verbatim>\<open>THREE.Vector3\<close>, \<^verbatim>\<open>THREE.Quaternion\<close>, \<^verbatim>\<open>THREE.Box3\<close>,
  \<^verbatim>\<open>THREE.Plane\<close>, \<^verbatim>\<open>THREE.Line3\<close>); in-place mutation is returned as a new value.
\<close>

datatype vec3 = Vector3 (vx: real) (vy: real) (vz: real)

definition vadd :: "vec3 \<Rightarrow> vec3 \<Rightarrow> vec3" where
  "vadd a b = Vector3 (vx a + vx b) (vy a + vy b) (vz a + vz b)"

definition subVectors :: "vec3 \<Rightarrow> vec3 \<Rightarrow> vec3" where
  "subVectors a b = Vector3 (vx a - vx b) (vy a - vy b) (vz a - vz b)"

definition multiplyScalar :: "vec3 \<Rightarrow> real \<Rightarrow> vec3" where
  "multiplyScalar a k = Vector3 (vx a * k) (vy a * k) (vz a * k)"

definition dot :: "vec3 \<Rightarrow> vec3 \<Rightarrow> real" where
  "dot a b = vx a * vx b + vy a * vy b + vz a * vz b"

definition vlength :: "vec3 \<Rightarrow> real" where
  "vlength a = sqrt (vx a * vx a + vy a * vy a + vz a * vz a)"

text \<open>\<^verbatim>\<open>normalize()\<close> is \<^verbatim>\<open>divideScalar(this.length() || 1)\<close>: the zero vector stays as it is.\<close>

definition normalize :: "vec3 \<Rightarrow> vec3" where
  "normalize a = multiplyScalar a (1 / (if vlength a = 0 then 1 else vlength a))"

definition distanceTo :: "vec3 \<Rightarrow> vec3 \<Rightarrow> real" where
  "distanceTo a b = vlength (subVectors a b)"

datatype quaternion = Quaternion (qx: real) (qy: real) (qz: real) (qw: real)

definition setFromAxisAngle :: "vec3 \<Rightarrow> real \<Rightarrow> quaternion" where
  "setFromAxisAngle axis angle =
     (let halfAngle = angle / 2; s = sin halfAngle
      in Quaternion (vx axis * s) (vy axis * s) (vz axis * s) (cos halfAngle))"

definition applyQuaternion :: "vec3 \<Rightarrow> quaternion \<Rightarrow> vec3" where
  "applyQuaternion v q =
     (let tx = 2 * (qy q * vz v - qz q * vy v);
          ty = 2 * (qz q * vx v - qx q * vz v);
          tz = 2 * (qx q * vy v - qy q * vx v)
      in Vector3 (vx v + qw q * tx + qy q * tz - qz q * ty)
                 (vy v + qw q * ty + qz q * tx - qx q * tz)
                 (vz v + qw q * tz + qx q * ty - qy q * tx))"

datatype euler = Euler real real real

text \<open>An axis-aligned box, \<^verbatim>\<open>THREE.Box3\<close>, by its two corners.\<close>

datatype box3 = Box3 (bmin: vec3) (bmax: vec3)

definition setFromCenterAndSize :: "vec3 \<Rightarrow> vec3 \<Rightarrow> box3" where
  "setFromCenterAndSize center sz =
     (let halfSize = multiplyScalar sz 0.5
      in Box3 (subVectors center halfSize) (vadd center halfSize))"

definition intersectsBox :: "box3 \<Rightarrow> box3 \<Rightarrow> bool" where
  "intersectsBox a b =
     (vx (bmax b) \<ge> vx (bmin a) \<and> vx (bmin b) \<le> vx (bmax a) \<and>
      vy (bmax b) \<ge> vy (bmin a) \<and> vy (bmin b) \<le> vy (bmax a) \<and>
      vz (bmax b) \<ge> vz (bmin a) \<and> vz (bmin b) \<le> vz (bmax a))"

section \<open>Constants (constants.ts)\<close>

datatype GamePhase = READY | PLAYING | FINISHED | GAME_OVER

definition ACCELERATION :: real where "ACCELERATION = 0.02"
definition ROTATION_SPEED :: real where "ROTATION_SPEED = 0.03"
definition PITCH_SPEED :: real where "PITCH_SPEED = 0.02"
definition DRAG :: real where "DRAG = 0.98"
definition BOOST_MULTIPLIER :: real where "BOOST_MULTIPLIER = 2.0"
definition BOOST_DURATION :: real where "BOOST_DURATION = 2000"
definition BOOST_COOLDOWN :: real where "BOOST_COOLDOWN = 5000"
definition COLLISION_DAMAGE :: int where "COLLISION_DAMAGE = 10"

definition SEGMENT_LENGTH :: real where "SEGMENT_LENGTH = 100"
definition WIDTH :: real where "WIDTH = 30"
definition CURVATURE_MAX :: real where "CURVATURE_MAX = 0.3"
definition PITCH_MAX :: real where "PITCH_MAX = 0.2"
definition CHECKPOINT_INTERVAL :: int where "CHECKPOINT_INTERVAL = 3"

definition HAZARD_TYPES :: "string list" where
  "HAZARD_TYPES = [''asteroid'', ''turbulence'', ''gravity_anomaly'']"

definition POWERUP_TYPES :: "string list" where
  "POWERUP_TYPES = [''boost'', ''shield'']"

record Controls =
  forward :: bool
  backward :: bool
  leftward :: bool
  rightward :: bool
  pitchUp :: bool
  pitchDown :: bool
  boost :: bool

section \<open>The store (stores/useRocketGame.tsx)\<close>

record RocketState =
  position :: vec3
  rotation :: euler
  velocity :: vec3
  speed :: real
  health :: int
  isShielded :: bool
  isBoosting :: bool
  boostCooldown :: bool
  boostTimeRemaining :: real
  shieldTimeRemaining :: real

record TrackSegment =
  seg_start :: vec3
  seg_end :: vec3
  direction :: vec3
  width :: real
  curvature :: real
  pitch :: real
  isCheckpoint :: bool
  seg_id :: int

record Hazard =
  hz_type :: string
  hz_position :: vec3
  hz_size :: real
  hz_id :: int
  hz_active :: bool

record PowerUp =
  pu_type :: string
  pu_position :: vec3
  pu_size :: real
  pu_id :: int
  pu_active :: bool

record GameState =
  phase :: GamePhase
  time :: real
  score :: int
  lap :: int
  lapTimes :: "real list"
  bestLapTime :: "real option"
  lastCheckpointId :: int
  rocket :: RocketState
  track :: "TrackSegment list"
  hazards :: "Hazard list"
  powerUps :: "PowerUp list"
  cameraTarget :: vec3

definition initialRocket :: RocketState where
  "initialRocket =
     \<lparr> position = Vector3 0 2 0, rotation = Euler 0 0 0, velocity = Vector3 0 0 0,
       speed = 0, health = 100, isShielded = False, isBoosting = False,
       boostCooldown = False, boostTimeRemaining = 0, shieldTimeRemaining = 0 \<rparr>"

definition initialState :: GameState where
  "initialState =
     \<lparr> phase = READY, time = 0, score = 0, lap = 1, lapTimes = [], bestLapTime = None,
       lastCheckpointId = 0, rocket = initialRocket, track = [], hazards = [],
       powerUps = [], cameraTarget = Vector3 0 0 0 \<rparr>"

subsection \<open>checkpointPassed\<close>

definition checkpointPassed :: "int \<Rightarrow> GameState \<Rightarrow> GameState" where
  "checkpointPassed checkpointId state =
     (if checkpointId \<le> lastCheckpointId state then state
      else
        let newScore = score state + 100 in
        if checkpointId mod (CHECKPOINT_INTERVAL * 4) = 0 \<and> checkpointId > 0 then
          let lapTime = time state;
              newBestLapTime =
                (case bestLapTime state of
                   None \<Rightarrow> Some lapTime
                 | Some b \<Rightarrow> if lapTime < b then Some lapTime else Some b)
          in state\<lparr> lap := lap state + 1,
                    lapTimes := lapTimes state @ [lapTime],
                    bestLapTime := newBestLapTime,
                    score := newScore + 500,
                    lastCheckpointId := checkpointId,
                    time := 0 \<rparr>
        else state\<lparr> score := newScore, lastCheckpointId := checkpointId \<rparr>)"

subsection \<open>Names that the module does not declare\<close>

text \<open>
  useRocketGame.tsx imports \<^verbatim>\<open>GamePhase\<close>, \<^verbatim>\<open>ROCKET\<close> and \<^verbatim>\<open>TRACK\<close> from
  constants.ts and nothing else from there. It reads \<^verbatim>\<open>Controls\<close>, \<^verbatim>\<open>HAZARD_TYPES\<close>
  and \<^verbatim>\<open>POWERUP_TYPES\<close> without declaring or importing them, so evaluating one of
  these names throws a \<^verbatim>\<open>ReferenceError\<close>. The error leaves the function passed to
  \<^verbatim>\<open>set\<close> before it returns, so the store keeps the state it had, and it leaves
  every caller up to the frame callback or the event handler.

  An action that can throw returns \<open>Inl\<close> of the error, with the store as it was, or
  \<open>Inr\<close> of the new state.
\<close>

datatype js_error = ReferenceError string

definition storeAfter :: "GameState \<Rightarrow> js_error + GameState \<Rightarrow> GameState" where
  "storeAfter state outcome = (case outcome of Inl e \<Rightarrow> state | Inr state' \<Rightarrow> state')"

subsection \<open>Random draws\<close>

text \<open>
  Every call of \<^verbatim>\<open>Math.random()\<close> is an input of the model, a real in \<open>[0, 1)\<close>.
  One record holds the draws that decide what the creation of one segment does: the
  curvature, the pitch, whether a hazard is placed and whether a power-up is placed.
  The draws for the position of a hazard or power-up are made on local vectors just
  before the call throws and decide nothing.
\<close>

record SegmentDraws =
  r_curvature :: real
  r_pitch :: real
  r_hazard :: real
  r_powerup :: real

text \<open>The new direction, written out in \<^verbatim>\<open>initializeTrack\<close> and in \<^verbatim>\<open>generateNewTrackSegment\<close>.\<close>

definition turnDirection :: "vec3 \<Rightarrow> real \<Rightarrow> real \<Rightarrow> vec3" where
  "turnDirection lastDirection curv ptch =
     (let rotationY = setFromAxisAngle (Vector3 0 1 0) curv;
          rotationX = setFromAxisAngle (Vector3 1 0 0) ptch
      in normalize (applyQuaternion (applyQuaternion lastDirection rotationY) rotationX))"

subsection \<open>initializeTrack\<close>

definition startSegment :: TrackSegment where
  "startSegment =
     \<lparr> seg_start = Vector3 0 0 0, seg_end = Vector3 0 0 (- SEGMENT_LENGTH),
       direction = Vector3 0 0 (- 1), width = WIDTH, curvature = 0, pitch = 0,
       isCheckpoint = True, seg_id = 0 \<rparr>"

text \<open>
  One pass of the loop \<^verbatim>\<open>for (let i = 1; i < 6; i++)\<close>; the loop state is the last
  segment and the three arrays being filled. When the pass decides to place a hazard
  it reaches \<^verbatim>\<open>Object.values(HAZARD_TYPES)\<close> and throws; otherwise, when it decides
  to place a power-up, it reaches \<^verbatim>\<open>Object.values(POWERUP_TYPES)\<close> and throws. A pass
  that returns has pushed the segment and nothing else.
\<close>

type_synonym init_acc = "TrackSegment \<times> TrackSegment list \<times> Hazard list \<times> PowerUp list"

definition initStep :: "(int \<Rightarrow> SegmentDraws) \<Rightarrow> int \<Rightarrow> init_acc \<Rightarrow> js_error + init_acc" where
  "initStep draws i acc =
     (case acc of (lastSegment, initialTrack, initialHazards, initialPowerUps) \<Rightarrow>
      let d = draws i;
          curv = (if i > 2 then (r_curvature d - 0.5) * CURVATURE_MAX else 0);
          ptch = (if i > 2 then (r_pitch d - 0.5) * PITCH_MAX else 0);
          newDirection = turnDirection (direction lastSegment) curv ptch;
          newEnd = vadd (seg_end lastSegment) (multiplyScalar newDirection SEGMENT_LENGTH);
          newSegment =
            \<lparr> seg_start = seg_end lastSegment, seg_end = newEnd, direction = newDirection,
              width = WIDTH, curvature = curv, pitch = ptch,
              isCheckpoint = (i mod CHECKPOINT_INTERVAL = 0), seg_id = i \<rparr>
      in if i > 2 \<and> r_hazard d < 0.7 then Inl (ReferenceError ''HAZARD_TYPES'')
         else if i > 1 \<and> r_powerup d < 0.3 then Inl (ReferenceError ''POWERUP_TYPES'')
         else Inr (newSegment, initialTrack @ [newSegment], initialHazards, initialPowerUps))"

fun initPasses :: "(int \<Rightarrow> SegmentDraws) \<Rightarrow> int list \<Rightarrow> init_acc \<Rightarrow> js_error + init_acc" where
  "initPasses draws [] acc = Inr acc"
| "initPasses draws (i # rest) acc =
     (case initStep draws i acc of
        Inl e \<Rightarrow> Inl e
      | Inr acc' \<Rightarrow> initPasses draws rest acc')"

definition initLoop :: "(int \<Rightarrow> SegmentDraws) \<Rightarrow> js_error + init_acc" where
  "initLoop draws = initPasses draws [1, 2, 3, 4, 5] (startSegment, [startSegment], [], [])"

definition initializeTrack :: "(int \<Rightarrow> SegmentDraws) \<Rightarrow> GameState \<Rightarrow> js_error + GameState" where
  "initializeTrack draws state =
     (case initLoop draws of
        Inl e \<Rightarrow> Inl e
      | Inr (lastSegment, initialTrack, initialHazards, initialPowerUps) \<Rightarrow>
          Inr (state\<lparr> track := initialTrack, hazards := initialHazards,
                      powerUps := initialPowerUps \<rparr>))"

subsection \<open>startGame, restartGame, endGame\<close>

text \<open>
  Both actions call \<^verbatim>\<open>state.initializeTrack()\<close> inside their own update: the store
  first takes the new track, then merges the fields that the action returns. When
  \<^verbatim>\<open>initializeTrack\<close> throws, the action's own update is left with it.
\<close>

definition resetRocket :: "RocketState \<Rightarrow> RocketState" where
  "resetRocket r =
     r\<lparr> position := Vector3 0 2 0, rotation := Euler 0 0 0, velocity := Vector3 0 0 0,
        speed := 0, health := 100, isShielded := False, isBoosting := False,
        boostCooldown := False, boostTimeRemaining := 0, shieldTimeRemaining := 0 \<rparr>"

definition startGame :: "(int \<Rightarrow> SegmentDraws) \<Rightarrow> GameState \<Rightarrow> js_error + GameState" where
  "startGame draws state =
     (if phase state = READY then
        (case initializeTrack draws state of
           Inl e \<Rightarrow> Inl e
         | Inr state1 \<Rightarrow>
             Inr (state1\<lparr> phase := PLAYING, time := 0, score := 0, lap := 1, lapTimes := [],
                          rocket := resetRocket (rocket state) \<rparr>))
      else Inr state)"

definition restartGame :: "(int \<Rightarrow> SegmentDraws) \<Rightarrow> GameState \<Rightarrow> js_error + GameState" where
  "restartGame draws state =
     (case initializeTrack draws state of
        Inl e \<Rightarrow> Inl e
      | Inr state1 \<Rightarrow>
          Inr (state1\<lparr> phase := READY, time := 0, score := 0, lap := 1, lapTimes := [],
                       rocket := resetRocket (rocket state) \<rparr>))"

definition endGame :: "bool \<Rightarrow> GameState \<Rightarrow> GameState" where
  "endGame won state =
     (let newPhase = (if won then FINISHED else GAME_OVER) in state\<lparr> phase := newPhase \<rparr>)"

subsection \<open>activatePowerUp, updateTime\<close>

definition activatePowerUp :: "string \<Rightarrow> GameState \<Rightarrow> GameState" where
  "activatePowerUp ty state =
     (let r = rocket state;
          r' = (if ty = ''boost'' then
                  r\<lparr> isBoosting := True, boostTimeRemaining := BOOST_DURATION \<rparr>
                else if ty = ''shield'' then
                  r\<lparr> isShielded := True, shieldTimeRemaining := 5000 \<rparr>
                else r)
      in state\<lparr> rocket := r' \<rparr>)"

definition updateTime :: "real \<Rightarrow> GameState \<Rightarrow> GameState" where
  "updateTime deltaTime state = state\<lparr> time := time state + deltaTime \<rparr>"

subsection \<open>generateNewTrackSegment, removeOldTrackSegment\<close>

text \<open>
  As in \<^verbatim>\<open>initializeTrack\<close>: a call that decides to place a hazard, or else a
  power-up, throws at \<^verbatim>\<open>HAZARD_TYPES\<close> or \<^verbatim>\<open>POWERUP_TYPES\<close> before it returns the
  new segment; a call that returns has appended the segment and copied the two lists.
\<close>

definition generateNewTrackSegment :: "SegmentDraws \<Rightarrow> GameState \<Rightarrow> js_error + GameState" where
  "generateNewTrackSegment d state =
     (case track state of
        [] \<Rightarrow> Inr state
      | _ # _ \<Rightarrow>
        let lastSegment = last (track state);
            curv = (r_curvature d - 0.5) * CURVATURE_MAX;
            ptch = (r_pitch d - 0.5) * PITCH_MAX;
            newDirection = turnDirection (direction lastSegment) curv ptch;
            newEnd = vadd (seg_end lastSegment) (multiplyScalar newDirection SEGMENT_LENGTH);
            newSegmentId = seg_id lastSegment + 1;
            newSegment =
              \<lparr> seg_start = seg_end lastSegment, seg_end = newEnd, direction = newDirection,
                width = WIDTH, curvature = curv, pitch = ptch,
                isCheckpoint = (newSegmentId mod CHECKPOINT_INTERVAL = 0),
                seg_id = newSegmentId \<rparr>;
            newHazards = hazards state;
            newPowerUps = powerUps state
        in if r_hazard d < 0.7 then Inl (ReferenceError ''HAZARD_TYPES'')
           else if r_powerup d < 0.3 then Inl (ReferenceError ''POWERUP_TYPES'')
           else Inr (state\<lparr> track := track state @ [newSegment], hazards := newHazards,
                            powerUps := newPowerUps \<rparr>))"

definition removeOldTrackSegment :: "GameState \<Rightarrow> GameState" where
  "removeOldTrackSegment state =
     (case track state of
        [] \<Rightarrow> state
      | [only] \<Rightarrow> state
      | first # newTrack \<Rightarrow>
        let oldSegmentId = seg_id first;
            newHazards = filter (\<lambda>h. hz_id h div 100 \<noteq> oldSegmentId) (hazards state);
            newPowerUps = filter (\<lambda>p. pu_id p div 100 \<noteq> oldSegmentId) (powerUps state)
        in state\<lparr> track := newTrack, hazards := newHazards, powerUps := newPowerUps \<rparr>)"

subsection \<open>Deferred callbacks\<close>

text \<open>
  \<^verbatim>\<open>updateRocket\<close> calls \<^verbatim>\<open>setTimeout\<close>. The model returns each such call as a
  value: the delay in milliseconds of wall-clock time and the callback to run then.
\<close>

datatype timer = ClearBoostCooldown | EndGame bool

type_synonym timers = "(real \<times> timer) list"

definition runTimer :: "timer \<Rightarrow> GameState \<Rightarrow> GameState" where
  "runTimer cb state =
     (case cb of
        ClearBoostCooldown \<Rightarrow> state\<lparr> rocket := (rocket state)\<lparr> boostCooldown := False \<rparr> \<rparr>
      | EndGame won \<Rightarrow> endGame won state)"

subsection \<open>updateRocket\<close>

text \<open>
  The rendering objects handed to \<^verbatim>\<open>updateRocket\<close>: of each the model keeps the
  \<^verbatim>\<open>userData\<close> fields that the function's loop names and the bounding box that
  \<^verbatim>\<open>Box3().setFromObject(obj)\<close> yields.
\<close>

record CollisionObject =
  collidable :: bool
  obj_type :: string
  obj_box :: box3
  obj_data :: PowerUp
  obj_checkpointId :: int

text \<open>The two timer blocks at the head of the update; they work on a copy of the rocket.\<close>

definition boostTimer :: "real \<Rightarrow> RocketState \<Rightarrow> RocketState \<times> timers" where
  "boostTimer deltaTime r =
     (if isBoosting r then
        let r1 = r\<lparr> boostTimeRemaining := boostTimeRemaining r - deltaTime \<rparr> in
        if boostTimeRemaining r1 \<le> 0 then
          (r1\<lparr> isBoosting := False, boostCooldown := True \<rparr>,
           [(BOOST_COOLDOWN, ClearBoostCooldown)])
        else (r1, [])
      else (r, []))"

definition shieldTimer :: "real \<Rightarrow> RocketState \<Rightarrow> RocketState" where
  "shieldTimer deltaTime r =
     (if isShielded r then
        let r1 = r\<lparr> shieldTimeRemaining := shieldTimeRemaining r - deltaTime \<rparr> in
        if shieldTimeRemaining r1 \<le> 0 then r1\<lparr> isShielded := False \<rparr> else r1
      else r)"

text \<open>
  After the two timer blocks the update evaluates \<^verbatim>\<open>controls[Controls.forward]\<close> and
  throws, whatever the controls are. The copy of the rocket is lost with the update;
  a callback that the boost block has handed to \<^verbatim>\<open>setTimeout\<close> stays scheduled.
  The rest of the function (boost request, rotation, thrust, drag, speed clamp,
  position, collision loop) is never reached. The call never returns a state: its
  result is the error and the callbacks scheduled before it.
\<close>

definition updateRocket ::
  "real \<Rightarrow> Controls \<Rightarrow> CollisionObject list \<Rightarrow> GameState \<Rightarrow> js_error \<times> timers" where
  "updateRocket deltaTime controls collisionObjects state =
     (case boostTimer deltaTime (rocket state) of (r1, ts1) \<Rightarrow>
      let r2 = shieldTimer deltaTime r1
      in (ReferenceError ''Controls'', ts1))"

subsection \<open>updateGameState\<close>

text \<open>
  Three store actions called in a row, not one update: an error thrown by
  \<^verbatim>\<open>generateNewTrackSegment\<close> ends the call before the other two run.
\<close>

definition updateGameState :: "SegmentDraws \<Rightarrow> real \<Rightarrow> GameState \<Rightarrow> js_error + GameState" where
  "updateGameState d deltaTime state =
     (if phase state \<noteq> PLAYING then Inr state
      else
        let currentPosition = position (rocket state);
            generated =
              (case track state of
                 [] \<Rightarrow> Inr state
               | _ # _ \<Rightarrow>
                   if distanceTo currentPosition (seg_end (last (track state)))
                        < SEGMENT_LENGTH * 2
                   then generateNewTrackSegment d state else Inr state)
        in case generated of
             Inl e \<Rightarrow> Inl e
           | Inr s1 \<Rightarrow>
               let s2 = (case track s1 of
                           [] \<Rightarrow> s1
                         | firstSegment # _ \<Rightarrow>
                             if distanceTo currentPosition (seg_start firstSegment)
                                  > SEGMENT_LENGTH * 3
                             then removeOldTrackSegment s1 else s1)
               in Inr (updateTime deltaTime s2))"

section \<open>Collision detection (collisionDetection.ts)\<close>

definition checkHazardCollision :: "vec3 \<Rightarrow> vec3 \<Rightarrow> Hazard \<Rightarrow> bool" where
  "checkHazardCollision rocketPosition rocketSize hazard =
     (let rocketBox = setFromCenterAndSize rocketPosition rocketSize;
          hazardSize = Vector3 (hz_size hazard) (hz_size hazard) (hz_size hazard);
          hazardBox = setFromCenterAndSize (hz_position hazard) hazardSize
      in intersectsBox rocketBox hazardBox)"

definition checkPowerUpCollision :: "vec3 \<Rightarrow> vec3 \<Rightarrow> PowerUp \<Rightarrow> bool" where
  "checkPowerUpCollision rocketPosition rocketSize powerUp =
     (if \<not> pu_active powerUp then False
      else
        let rocketBox = setFromCenterAndSize rocketPosition rocketSize;
            powerUpSize = Vector3 (pu_size powerUp) (pu_size powerUp) (pu_size powerUp);
            powerUpBox = setFromCenterAndSize (pu_position powerUp) powerUpSize
        in intersectsBox rocketBox powerUpBox)"

text \<open>
  \<^verbatim>\<open>Line3.closestPointToPoint(point, true, target)\<close>. For a segment of length zero the
  source divides zero by zero and every later comparison with the resulting distance
  is false; the model returns \<open>None\<close> there.
\<close>

definition closestPointToPoint :: "vec3 \<Rightarrow> vec3 \<Rightarrow> vec3 \<Rightarrow> vec3 option" where
  "closestPointToPoint lineStart lineEnd point =
     (let startP = subVectors point lineStart;
          startEnd = subVectors lineEnd lineStart;
          startEnd2 = dot startEnd startEnd;
          startEnd_startP = dot startEnd startP
      in if startEnd2 = 0 then None
         else
           let t = max 0 (min 1 (startEnd_startP / startEnd2))
           in Some (vadd (multiplyScalar startEnd t) lineStart))"

text \<open>
  The running minimum: \<open>None\<close> stands for \<^verbatim>\<open>minDistance = Infinity\<close> with
  \<^verbatim>\<open>closestSegment = null\<close>.
\<close>

definition closerSegment ::
  "vec3 \<Rightarrow> (real \<times> TrackSegment) option \<Rightarrow> TrackSegment \<Rightarrow> (real \<times> TrackSegment) option" where
  "closerSegment rocketPosition best segment =
     (case closestPointToPoint (seg_start segment) (seg_end segment) rocketPosition of
        None \<Rightarrow> best
      | Some closestPoint \<Rightarrow>
          let distance = distanceTo rocketPosition closestPoint
          in case best of
               None \<Rightarrow> Some (distance, segment)
             | Some (minDistance, closestSegment) \<Rightarrow>
                 if distance < minDistance then Some (distance, segment) else best)"

definition checkTrackBoundaryCollision :: "vec3 \<Rightarrow> vec3 \<Rightarrow> TrackSegment list \<Rightarrow> bool" where
  "checkTrackBoundaryCollision rocketPosition rocketSize trackSegments =
     (case foldl (closerSegment rocketPosition) None trackSegments of
        None \<Rightarrow> False
      | Some (minDistance, closestSegment) \<Rightarrow>
          let rocketHalfWidth = max (vx rocketSize) (vz rocketSize) / 2
          in minDistance > width closestSegment / 2 - rocketHalfWidth - 0.2)"

definition distanceToPoint :: "vec3 \<Rightarrow> vec3 \<Rightarrow> vec3 \<Rightarrow> real" where
  "distanceToPoint planeNormal coplanarPoint point =
     dot planeNormal point + (- dot coplanarPoint planeNormal)"

definition projectOnPlane :: "vec3 \<Rightarrow> vec3 \<Rightarrow> vec3" where
  "projectOnPlane v planeNormal =
     (let denominator = dot planeNormal planeNormal;
          onNormal = (if denominator = 0 then Vector3 0 0 0
                      else multiplyScalar planeNormal (dot planeNormal v / denominator))
      in subVectors v onNormal)"

definition checkCheckpointCollision :: "vec3 \<Rightarrow> vec3 \<Rightarrow> TrackSegment \<Rightarrow> bool" where
  "checkCheckpointCollision rocketPosition rocketPrevPosition segment =
     (if \<not> isCheckpoint segment then False
      else
        let planeNormal = direction segment;
            prevSide = distanceToPoint planeNormal (seg_end segment) rocketPrevPosition > 0;
            currentSide = distanceToPoint planeNormal (seg_end segment) rocketPosition > 0
        in if prevSide \<noteq> currentSide then
             let offset = projectOnPlane (subVectors rocketPosition (seg_end segment)) planeNormal;
                 distanceFromCenter = vlength offset
             in distanceFromCenter < width segment / 2
           else False)"

record CollisionResult =
  trackBoundary :: bool
  cr_hazards :: "Hazard list"
  cr_powerUps :: "PowerUp list"
  cp_collided :: bool
  cp_id :: int

text \<open>The last \<^verbatim>\<open>forEach\<close> of \<^verbatim>\<open>detectCollisions\<close>: one pass assigns \<^verbatim>\<open>result.checkpoint\<close>.\<close>

definition checkpointPass :: "vec3 \<Rightarrow> vec3 \<Rightarrow> CollisionResult \<Rightarrow> TrackSegment \<Rightarrow> CollisionResult" where
  "checkpointPass rocketPosition rocketPrevPosition result segment =
     (if isCheckpoint segment \<and> checkCheckpointCollision rocketPosition rocketPrevPosition segment
      then result\<lparr> cp_collided := True, cp_id := seg_id segment \<rparr>
      else result)"

definition detectCollisions ::
  "vec3 \<Rightarrow> vec3 \<Rightarrow> vec3 \<Rightarrow> TrackSegment list \<Rightarrow> Hazard list \<Rightarrow> PowerUp list \<Rightarrow> CollisionResult" where
  "detectCollisions rocketPosition rocketPrevPosition rocketSize trackSegments hzs pus =
     (let result0 = \<lparr> trackBoundary = False, cr_hazards = [], cr_powerUps = [],
                      cp_collided = False, cp_id = - 1 \<rparr>;
          result1 = result0\<lparr> trackBoundary :=
                      checkTrackBoundaryCollision rocketPosition rocketSize trackSegments \<rparr>;
          result2 = result1\<lparr> cr_hazards :=
                      filter (\<lambda>hazard. hz_active hazard \<and>
                                checkHazardCollision rocketPosition rocketSize hazard) hzs \<rparr>;
          result3 = result2\<lparr> cr_powerUps :=
                      filter (\<lambda>powerUp. pu_active powerUp \<and>
                                checkPowerUpCollision rocketPosition rocketSize powerUp) pus \<rparr>
      in foldl (checkpointPass rocketPosition rocketPrevPosition) result3 trackSegments)"

section \<open>The game loop (the \<^verbatim>\<open>useFrame\<close> callback of the Game component)\<close>

text \<open>
  The callback tests the \<^verbatim>\<open>phase\<close> that the component read from the store when it
  was last rendered; \<open>renderedPhase\<close> is that value. When it is Playing, the callback
  calls \<^verbatim>\<open>updateRocket\<close> first, which throws: the calls that follow it in the callback
  (\<^verbatim>\<open>updateGameState\<close>, \<^verbatim>\<open>detectCollisions\<close>, \<^verbatim>\<open>activatePowerUp\<close>,
  \<^verbatim>\<open>checkpointPassed\<close>) are not reached. \<open>deltaTime\<close> is in seconds.
\<close>

definition gameFrame ::
  "GamePhase \<Rightarrow> real \<Rightarrow> Controls \<Rightarrow> CollisionObject list \<Rightarrow> GameState \<Rightarrow>
   (js_error + GameState) \<times> timers" where
  "gameFrame renderedPhase deltaTime controls collisionObjects state =
     (let clampedDelta = min deltaTime 0.1 * 1000 in
      if renderedPhase = PLAYING then
        (case updateRocket clampedDelta controls collisionObjects state of
           (e, ts) \<Rightarrow> (Inl e, ts))
      else (Inr state, []))"

section \<open>The store together with its pending callbacks\<close>




section \<open>Runs and concrete inputs\<close>

text \<open>A sequence of checkpoint events, each handed to \<^verbatim>\<open>checkpointPassed\<close>.\<close>

fun checkpointEvents :: "int list \<Rightarrow> GameState \<Rightarrow> GameState" where
  "checkpointEvents [] s = s"
| "checkpointEvents (i # ids) s = checkpointEvents ids (checkpointPassed i s)"

text \<open>Draws that give a straight segment without hazard or power-up.\<close>

definition calmDraws :: SegmentDraws where
  "calmDraws = \<lparr> r_curvature = 0.5, r_pitch = 0.5, r_hazard = 0.9, r_powerup = 0.9 \<rparr>"



text \<open>
  Whether the five passes of \<^verbatim>\<open>initializeTrack\<close> decide to place a hazard (passes 3
  to 5) or a power-up (passes 2 to 5).
\<close>

definition placesObject :: "(int \<Rightarrow> SegmentDraws) \<Rightarrow> bool" where
  "placesObject draws =
     (r_hazard (draws 3) < 0.7 \<or> r_hazard (draws 4) < 0.7 \<or> r_hazard (draws 5) < 0.7 \<or>
      r_powerup (draws 2) < 0.3 \<or> r_powerup (draws 3) < 0.3 \<or>
      r_powerup (draws 4) < 0.3 \<or> r_powerup (draws 5) < 0.3)"

text \<open>The race just started, with calm draws for its track.\<close>

definition racing :: GameState where
  "racing = storeAfter initialState (startGame (\<lambda>i. calmDraws) initialState)"

text \<open>A race in which the first lap has just been completed after 5000 ms.\<close>

definition lapDone :: GameState where
  "lapDone = checkpointEvents [3, 6, 9, 12] (updateTime 5000 racing)"

text \<open>
  A window of segments is connected when each segment starts where the one before it
  ends and carries the next id.
\<close>

fun connected :: "TrackSegment list \<Rightarrow> bool" where
  "connected [] = True"
| "connected [a] = True"
| "connected (a # b # rest) =
     (seg_end a = seg_start b \<and> seg_id b = seg_id a + 1 \<and> connected (b # rest))"

text \<open>
  The three actions that build the window, and a run of them; each step is the store
  after the call, which a call that throws leaves as it was.
\<close>

datatype track_op = Initialize "int \<Rightarrow> SegmentDraws" | Generate SegmentDraws | Evict

fun track_step :: "track_op \<Rightarrow> GameState \<Rightarrow> GameState" where
  "track_step (Initialize draws) s = storeAfter s (initializeTrack draws s)"
| "track_step (Generate d) s = storeAfter s (generateNewTrackSegment d s)"
| "track_step Evict s = removeOldTrackSegment s"

fun track_run :: "track_op list \<Rightarrow> GameState \<Rightarrow> GameState" where
  "track_run [] s = s"
| "track_run (op # ops) s = track_run ops (track_step op s)"

text \<open>The invariant of the loop of \<^verbatim>\<open>initializeTrack\<close>.\<close>

definition init_inv :: "init_acc \<Rightarrow> bool" where
  "init_inv acc = (case acc of (lastSegment, tr, hz, pu) \<Rightarrow>
      tr \<noteq> [] \<and> last tr = lastSegment \<and> connected tr)"

text \<open>Two checkpoint segments on a straight line, both crossed by one long step.\<close>

definition gateA :: TrackSegment where
  "gateA = \<lparr> seg_start = Vector3 0 0 0, seg_end = Vector3 0 0 (- 100),
             direction = Vector3 0 0 (- 1), width = 30, curvature = 0, pitch = 0,
             isCheckpoint = True, seg_id = 3 \<rparr>"

definition gateB :: TrackSegment where
  "gateB = \<lparr> seg_start = Vector3 0 0 (- 100), seg_end = Vector3 0 0 (- 200),
             direction = Vector3 0 0 (- 1), width = 30, curvature = 0, pitch = 0,
             isCheckpoint = True, seg_id = 6 \<rparr>"

text \<open>The condition under which the last \<^verbatim>\<open>forEach\<close> of \<^verbatim>\<open>detectCollisions\<close> assigns the checkpoint.\<close>

definition crossed :: "vec3 \<Rightarrow> vec3 \<Rightarrow> TrackSegment \<Rightarrow> bool" where
  "crossed rocketPosition rocketPrevPosition segment =
     (isCheckpoint segment \<and> checkCheckpointCollision rocketPosition rocketPrevPosition segment)"

text \<open>Nothing pressed, and a hazard whose bounding box holds the rocket at the start.\<close>

definition idle :: Controls where
  "idle = \<lparr> forward = False, backward = False, leftward = False, rightward = False,
            pitchUp = False, pitchDown = False, boost = False \<rparr>"

definition hazardAtStart :: CollisionObject where
  "hazardAtStart =
     \<lparr> collidable = True, obj_type = ''hazard'',
       obj_box = Box3 (Vector3 (- 1) 1 (- 1)) (Vector3 1 3 1),
       obj_data = \<lparr> pu_type = ''boost'', pu_position = Vector3 0 0 0, pu_size = 2,
                    pu_id = 0, pu_active = False \<rparr>,
       obj_checkpointId = 0 \<rparr>"





text \<open>
  The states the store can be in: the initial state, and from a state the store after
  every action with any arguments, after a frame of the game loop rendered with any
  phase, and after a deferred callback. \<^verbatim>\<open>updateRocket\<close> never writes the store and
  needs no rule.
\<close>

inductive reachable :: "GameState \<Rightarrow> bool" where
  r_initial: "reachable initialState"
| r_startGame: "reachable s \<Longrightarrow> reachable (storeAfter s (startGame draws s))"
| r_restartGame: "reachable s \<Longrightarrow> reachable (storeAfter s (restartGame draws s))"
| r_endGame: "reachable s \<Longrightarrow> reachable (endGame won s)"
| r_activatePowerUp: "reachable s \<Longrightarrow> reachable (activatePowerUp ty s)"
| r_updateGameState: "reachable s \<Longrightarrow> reachable (storeAfter s (updateGameState d dt s))"
| r_generate: "reachable s \<Longrightarrow> reachable (storeAfter s (generateNewTrackSegment d s))"
| r_remove: "reachable s \<Longrightarrow> reachable (removeOldTrackSegment s)"
| r_checkpointPassed: "reachable s \<Longrightarrow> reachable (checkpointPassed i s)"
| r_updateTime: "reachable s \<Longrightarrow> reachable (updateTime dt s)"
| r_initializeTrack: "reachable s \<Longrightarrow> reachable (storeAfter s (initializeTrack draws s))"
| r_gameFrame:
    "reachable s \<Longrightarrow> reachable (storeAfter s (fst (gameFrame p dt c objs s)))"
| r_callback: "reachable s \<Longrightarrow> reachable (runTimer cb s)"

text \<open>
  What every reachable state satisfies: the last-accepted checkpoint id is not negative,
  and a segment flagged as a checkpoint has an id that is a multiple of the interval.
\<close>

definition aligned :: "TrackSegment \<Rightarrow> bool" where
  "aligned seg = (isCheckpoint seg \<longrightarrow> seg_id seg mod CHECKPOINT_INTERVAL = 0)"

definition checkpointsAligned :: "GameState \<Rightarrow> bool" where
  "checkpointsAligned s = (0 \<le> lastCheckpointId s \<and> list_all aligned (track s))"

text \<open>
  What else every reachable state satisfies, since the rocket update never writes the
  store and no hazard or power-up is ever stored: the rocket rests at its start with
  full health and no boost cooldown, and the two collections are empty.
\<close>

definition atRest :: "GameState \<Rightarrow> bool" where
  "atRest s =
     (position (rocket s) = Vector3 0 2 0 \<and> velocity (rocket s) = Vector3 0 0 0 \<and>
      speed (rocket s) = 0 \<and> health (rocket s) = 100 \<and> \<not> boostCooldown (rocket s) \<and>
      hazards s = [] \<and> powerUps s = [])"

section \<open>Properties\<close>

subsection \<open>Basic facts about the actions\<close>

lemma storeAfter_simps [simp]:
  "storeAfter s (Inl e) = s"
  "storeAfter s (Inr s') = s'"
  by (simp_all add: storeAfter_def)

lemma checkpointPassed_mono: "lastCheckpointId s \<le> lastCheckpointId (checkpointPassed i s)"
  by (simp add: checkpointPassed_def Let_def)

lemma checkpointPassed_ignored: "i \<le> lastCheckpointId s \<Longrightarrow> checkpointPassed i s = s"
  by (simp add: checkpointPassed_def)

lemma checkpointPassed_keeps [simp]:
  "track (checkpointPassed i s) = track s"
  "phase (checkpointPassed i s) = phase s"
  "rocket (checkpointPassed i s) = rocket s"
  "hazards (checkpointPassed i s) = hazards s"
  "powerUps (checkpointPassed i s) = powerUps s"
  by (simp_all add: checkpointPassed_def Let_def)

lemma checkpointEvents_mono: "lastCheckpointId s \<le> lastCheckpointId (checkpointEvents ids s)"
proof (induction ids arbitrary: s)
  case Nil
  show ?case by simp
next
  case (Cons i ids)
  have "lastCheckpointId s \<le> lastCheckpointId (checkpointPassed i s)"
    by (rule checkpointPassed_mono)
  also have "\<dots> \<le> lastCheckpointId (checkpointEvents ids (checkpointPassed i s))"
    by (rule Cons.IH)
  finally show ?case by simp
qed

lemma checkpointEvents_append:
  "checkpointEvents (xs @ ys) s = checkpointEvents ys (checkpointEvents xs s)"
  by (induction xs arbitrary: s) simp_all

subsection \<open>The passes of initializeTrack\<close>

lemma initStep_throws:
  "initStep draws i acc =
     (if i > 2 \<and> r_hazard (draws i) < 0.7 then Inl (ReferenceError ''HAZARD_TYPES'')
      else if i > 1 \<and> r_powerup (draws i) < 0.3 then Inl (ReferenceError ''POWERUP_TYPES'')
      else Inr (projr (initStep draws i acc)))"
  by (cases acc) (simp add: initStep_def Let_def)

lemma initStep_returns:
  assumes "initStep draws i acc = Inr acc'"
  shows "\<exists>n. acc' = (n, fst (snd acc) @ [n], fst (snd (snd acc)), snd (snd (snd acc))) \<and>
             seg_start n = seg_end (fst acc) \<and> seg_id n = i \<and>
             isCheckpoint n = (i mod CHECKPOINT_INTERVAL = 0)"
  using assms by (cases acc) (auto simp: initStep_def Let_def split: if_splits)

lemma initLoop_returns:
  assumes "initLoop draws = Inr acc"
  obtains a1 a2 a3 a4 where
    "initStep draws 1 (startSegment, [startSegment], [], []) = Inr a1"
    "initStep draws 2 a1 = Inr a2" "initStep draws 3 a2 = Inr a3"
    "initStep draws 4 a3 = Inr a4" "initStep draws 5 a4 = Inr acc"
  using assms by (auto simp: initLoop_def split: sum.splits)

lemma initLoop_completes:
  assumes "\<not> placesObject draws"
  shows "\<exists>acc. initLoop draws = Inr acc"
proof -
  have ok: "\<exists>acc'. initStep draws i acc = Inr acc'"
    if "i \<in> {1, 2, 3, 4, 5}" for i acc
  proof -
    have "initStep draws i acc = Inr (projr (initStep draws i acc))"
      using that assms by (subst initStep_throws) (auto simp: placesObject_def)
    then show ?thesis by (rule exI)
  qed
  let ?a0 = "(startSegment, [startSegment], [], []) :: init_acc"
  from ok [of 1 ?a0] obtain a1 where 1: "initStep draws 1 ?a0 = Inr a1" by auto
  from ok [of 2 a1] obtain a2 where 2: "initStep draws 2 a1 = Inr a2" by auto
  from ok [of 3 a2] obtain a3 where 3: "initStep draws 3 a2 = Inr a3" by auto
  from ok [of 4 a3] obtain a4 where 4: "initStep draws 4 a3 = Inr a4" by auto
  from ok [of 5 a4] obtain a5 where 5: "initStep draws 5 a4 = Inr a5" by auto
  have "initLoop draws = Inr a5" by (simp add: initLoop_def 1 2 3 4 5)
  then show ?thesis by (rule exI)
qed

lemma initLoop_throws:
  assumes "placesObject draws"
  shows "\<exists>e. initLoop draws = Inl e"
proof (cases "initLoop draws")
  case (Inl e)
  then show ?thesis by blast
next
  case (Inr acc)
  then obtain a1 a2 a3 a4 where steps:
    "initStep draws 1 (startSegment, [startSegment], [], []) = Inr a1"
    "initStep draws 2 a1 = Inr a2" "initStep draws 3 a2 = Inr a3"
    "initStep draws 4 a3 = Inr a4" "initStep draws 5 a4 = Inr acc"
    by (rule initLoop_returns)
  have no: "\<not> (i > 2 \<and> r_hazard (draws i) < 0.7) \<and> \<not> (i > 1 \<and> r_powerup (draws i) < 0.3)"
    if "initStep draws i a = Inr a'" for i a a'
    using that by (subst (asm) initStep_throws) (auto split: if_splits)
  from no [OF steps(2)] no [OF steps(3)] no [OF steps(4)] no [OF steps(5)] assms
  show ?thesis by (simp add: placesObject_def)
qed

lemma initializeTrack_returns:
  assumes "initializeTrack draws s = Inr s'"
  obtains acc where "initLoop draws = Inr acc"
    "s' = s\<lparr> track := fst (snd acc), hazards := fst (snd (snd acc)),
              powerUps := snd (snd (snd acc)) \<rparr>"
  using assms by (auto simp: initializeTrack_def split: sum.splits prod.splits)

lemma initializeTrack_completes:
  "\<not> placesObject draws \<Longrightarrow> \<exists>s'. initializeTrack draws s = Inr s'"
  using initLoop_completes [of draws]
  by (auto simp: initializeTrack_def split: sum.splits prod.splits)

lemma initializeTrack_throws:
  "placesObject draws \<Longrightarrow> \<exists>e. initializeTrack draws s = Inl e"
  using initLoop_throws [of draws] by (auto simp: initializeTrack_def)

lemma initializeTrack_race:
  assumes "initializeTrack draws s = Inr s'"
  shows "phase s' = phase s" "time s' = time s" "score s' = score s" "lap s' = lap s"
    "lapTimes s' = lapTimes s" "bestLapTime s' = bestLapTime s"
    "lastCheckpointId s' = lastCheckpointId s" "rocket s' = rocket s"
  using assms by (auto elim!: initializeTrack_returns)

lemma initLoop_objects:
  assumes "initLoop draws = Inr acc"
  shows "fst (snd (snd acc)) = [] \<and> snd (snd (snd acc)) = []"
proof -
  from assms obtain a1 a2 a3 a4 where steps:
    "initStep draws 1 (startSegment, [startSegment], [], []) = Inr a1"
    "initStep draws 2 a1 = Inr a2" "initStep draws 3 a2 = Inr a3"
    "initStep draws 4 a3 = Inr a4" "initStep draws 5 a4 = Inr acc"
    by (rule initLoop_returns)
  have keep: "fst (snd (snd a')) = fst (snd (snd a)) \<and> snd (snd (snd a')) = snd (snd (snd a))"
    if "initStep draws i a = Inr a'" for i a a'
    using initStep_returns [OF that] by auto
  from keep [OF steps(1)] keep [OF steps(2)] keep [OF steps(3)] keep [OF steps(4)]
    keep [OF steps(5)]
  show ?thesis by simp
qed

lemma initLoop_flags:
  assumes "initLoop draws = Inr acc"
  shows "map (\<lambda>seg. (seg_id seg, isCheckpoint seg)) (fst (snd acc))
           = [(0, True), (1, False), (2, False), (3, True), (4, False), (5, False)]"
proof -
  from assms obtain a1 a2 a3 a4 where steps:
    "initStep draws 1 (startSegment, [startSegment], [], []) = Inr a1"
    "initStep draws 2 a1 = Inr a2" "initStep draws 3 a2 = Inr a3"
    "initStep draws 4 a3 = Inr a4" "initStep draws 5 a4 = Inr acc"
    by (rule initLoop_returns)
  have grow: "map (\<lambda>seg. (seg_id seg, isCheckpoint seg)) (fst (snd a'))
                = map (\<lambda>seg. (seg_id seg, isCheckpoint seg)) (fst (snd a))
                  @ [(i, i mod CHECKPOINT_INTERVAL = 0)]"
    if "initStep draws i a = Inr a'" for i a a'
    using initStep_returns [OF that] by auto
  from grow [OF steps(1)] grow [OF steps(2)] grow [OF steps(3)] grow [OF steps(4)]
    grow [OF steps(5)]
  show ?thesis by (simp add: startSegment_def CHECKPOINT_INTERVAL_def)
qed

lemma initializeTrack_flags:
  assumes "initializeTrack draws s = Inr s'"
  shows "map (\<lambda>seg. (seg_id seg, isCheckpoint seg)) (track s')
           = [(0, True), (1, False), (2, False), (3, True), (4, False), (5, False)]"
  using assms initLoop_flags by (auto elim!: initializeTrack_returns)

lemma initializeTrack_objects:
  assumes "initializeTrack draws s = Inr s'"
  shows "hazards s' = [] \<and> powerUps s' = []"
  using assms initLoop_objects by (auto elim!: initializeTrack_returns)

subsection \<open>startGame and restartGame\<close>



lemma startGame_returns:
  assumes "startGame draws s = Inr s'" and "phase s = READY"
  obtains s1 where "initializeTrack draws s = Inr s1"
    "s' = s1\<lparr> phase := PLAYING, time := 0, score := 0, lap := 1, lapTimes := [],
               rocket := resetRocket (rocket s) \<rparr>"
  using assms by (auto simp: startGame_def split: sum.splits)

lemma calm_places_nothing: "\<not> placesObject (\<lambda>i. calmDraws)"
  by (simp add: placesObject_def calmDraws_def)

lemma startGame_calm: "startGame (\<lambda>i. calmDraws) initialState = Inr racing"
proof -
  from initializeTrack_completes [OF calm_places_nothing, of initialState]
  obtain s1 where "initializeTrack (\<lambda>i. calmDraws) initialState = Inr s1" by blast
  then show ?thesis by (simp add: racing_def startGame_def initialState_def)
qed

lemma racing_fields:
  "phase racing = PLAYING" "rocket racing = initialRocket" "lastCheckpointId racing = 0"
  "score racing = 0" "time racing = 0" "lap racing = 1" "lapTimes racing = []"
  "bestLapTime racing = None" "hazards racing = []" "powerUps racing = []"
proof -
  have ready: "phase initialState = READY" by (simp add: initialState_def)
  from startGame_returns [OF startGame_calm ready] obtain s1 where
    s1: "initializeTrack (\<lambda>i. calmDraws) initialState = Inr s1" and
    r: "racing = s1\<lparr> phase := PLAYING, time := 0, score := 0, lap := 1, lapTimes := [],
                     rocket := resetRocket (rocket initialState) \<rparr>"
    by blast
  note race = initializeTrack_race [OF s1] initializeTrack_objects [OF s1]
  show "phase racing = PLAYING" "score racing = 0" "time racing = 0" "lap racing = 1"
    "lapTimes racing = []"
    by (simp_all add: r)
  show "rocket racing = initialRocket"
    by (simp add: r resetRocket_def initialRocket_def initialState_def)
  show "lastCheckpointId racing = 0" "bestLapTime racing = None"
    using race by (simp_all add: r initialState_def)
  show "hazards racing = []" "powerUps racing = []"
    using race by (simp_all add: r)
qed

lemma racing_track:
  "map (\<lambda>seg. (seg_id seg, isCheckpoint seg)) (track racing)
     = [(0, True), (1, False), (2, False), (3, True), (4, False), (5, False)]"
proof -
  have ready: "phase initialState = READY" by (simp add: initialState_def)
  from startGame_returns [OF startGame_calm ready] obtain s1 where
    s1: "initializeTrack (\<lambda>i. calmDraws) initialState = Inr s1" and
    r: "racing = s1\<lparr> phase := PLAYING, time := 0, score := 0, lap := 1, lapTimes := [],
                     rocket := resetRocket (rocket initialState) \<rparr>"
    by blast
  from initializeTrack_flags [OF s1] show ?thesis by (simp add: r)
qed


subsection \<open>The track window\<close>

lemma connected_snoc:
  "connected xs \<Longrightarrow> xs \<noteq> [] \<Longrightarrow> seg_end (last xs) = seg_start n \<Longrightarrow>
   seg_id n = seg_id (last xs) + 1 \<Longrightarrow> connected (xs @ [n])"
proof (induction xs rule: connected.induct)
  case 1
  then show ?case by simp
next
  case (2 a)
  then show ?case by simp
next
  case (3 a b rest)
  then show ?case by simp
qed

lemma connected_tl: "connected (a # xs) \<Longrightarrow> connected xs"
  by (cases xs) simp_all

lemma initStep_inv:
  assumes "initStep draws i acc = Inr acc'" and "init_inv acc" and "seg_id (fst acc) + 1 = i"
  shows "init_inv acc' \<and> seg_id (fst acc') = i"
proof -
  obtain l tr hz pu where acc: "acc = (l, tr, hz, pu)" by (cases acc)
  from assms(2,3) acc have tr: "tr \<noteq> []" "last tr = l" "connected tr" and i: "seg_id l + 1 = i"
    by (simp_all add: init_inv_def)
  from initStep_returns [OF assms(1)] obtain n where
    n: "acc' = (n, tr @ [n], hz, pu)" "seg_start n = seg_end l" "seg_id n = i"
    by (auto simp: acc)
  with tr i show ?thesis by (simp add: init_inv_def connected_snoc)
qed

lemma initLoop_inv:
  assumes "initLoop draws = Inr acc"
  shows "init_inv acc"
proof -
  let ?a0 = "(startSegment, [startSegment], [], []) :: init_acc"
  from assms obtain a1 a2 a3 a4 where steps:
    "initStep draws 1 ?a0 = Inr a1"
    "initStep draws 2 a1 = Inr a2" "initStep draws 3 a2 = Inr a3"
    "initStep draws 4 a3 = Inr a4" "initStep draws 5 a4 = Inr acc"
    by (rule initLoop_returns)
  have 0: "init_inv ?a0" "seg_id (fst ?a0) + 1 = 1"
    by (simp_all add: init_inv_def startSegment_def)
  from initStep_inv [OF steps(1) 0] have 1: "init_inv a1" "seg_id (fst a1) + 1 = 2" by simp_all
  from initStep_inv [OF steps(2) 1] have 2: "init_inv a2" "seg_id (fst a2) + 1 = 3" by simp_all
  from initStep_inv [OF steps(3) 2] have 3: "init_inv a3" "seg_id (fst a3) + 1 = 4" by simp_all
  from initStep_inv [OF steps(4) 3] have 4: "init_inv a4" "seg_id (fst a4) + 1 = 5" by simp_all
  from initStep_inv [OF steps(5) 4] show ?thesis by simp
qed

lemma connected_initializeTrack:
  assumes "initializeTrack draws s = Inr s'"
  shows "connected (track s')"
proof -
  from assms obtain acc where acc: "initLoop draws = Inr acc"
    and s': "s' = s\<lparr> track := fst (snd acc), hazards := fst (snd (snd acc)),
                     powerUps := snd (snd (snd acc)) \<rparr>"
    by (rule initializeTrack_returns)
  from initLoop_inv [OF acc] show ?thesis
    by (cases acc) (simp add: s' init_inv_def)
qed

lemma generate_returns:
  assumes "generateNewTrackSegment d s = Inr s'"
  shows "s' = s \<and> track s = [] \<or>
         (\<exists>n. s' = s\<lparr> track := track s @ [n] \<rparr> \<and> track s \<noteq> [] \<and>
              seg_start n = seg_end (last (track s)) \<and> seg_id n = seg_id (last (track s)) + 1 \<and>
              isCheckpoint n = (seg_id n mod CHECKPOINT_INTERVAL = 0))"
proof (cases "track s")
  case Nil
  with assms show ?thesis by (simp add: generateNewTrackSegment_def)
next
  case (Cons a list)
  then have ne: "track s \<noteq> []" by simp
  let ?curv = "(r_curvature d - 0.5) * CURVATURE_MAX"
  let ?ptch = "(r_pitch d - 0.5) * PITCH_MAX"
  let ?dir = "turnDirection (direction (last (track s))) ?curv ?ptch"
  let ?n = "\<lparr> seg_start = seg_end (last (track s)),
              seg_end = vadd (seg_end (last (track s))) (multiplyScalar ?dir SEGMENT_LENGTH),
              direction = ?dir, width = WIDTH, curvature = ?curv, pitch = ?ptch,
              isCheckpoint = ((seg_id (last (track s)) + 1) mod CHECKPOINT_INTERVAL = 0),
              seg_id = seg_id (last (track s)) + 1 \<rparr>"
  from assms Cons have s': "s' = s\<lparr> track := track s @ [?n] \<rparr>"
    by (simp add: generateNewTrackSegment_def Let_def split: if_splits)
  have "s' = s\<lparr> track := track s @ [?n] \<rparr> \<and> track s \<noteq> [] \<and>
        seg_start ?n = seg_end (last (track s)) \<and> seg_id ?n = seg_id (last (track s)) + 1 \<and>
        isCheckpoint ?n = (seg_id ?n mod CHECKPOINT_INTERVAL = 0)"
    using s' ne by simp
  then show ?thesis by (intro disjI2 exI)
qed


lemma connected_generate:
  assumes "connected (track s)"
  shows "connected (track (storeAfter s (generateNewTrackSegment d s)))"
proof (cases "generateNewTrackSegment d s")
  case (Inl e)
  with assms show ?thesis by simp
next
  case (Inr s')
  from generate_returns [OF Inr] assms show ?thesis
    by (auto simp: Inr connected_snoc)
qed

lemma connected_remove:
  "connected (track s) \<Longrightarrow> connected (track (removeOldTrackSegment s))"
  by (auto simp: removeOldTrackSegment_def Let_def split: list.splits)

lemma connected_track_step: "connected (track s) \<Longrightarrow> connected (track (track_step op s))"
proof (cases op)
  case (Initialize draws)
  assume c: "connected (track s)"
  show ?thesis
  proof (cases "initializeTrack draws s")
    case (Inl e)
    with c Initialize show ?thesis by simp
  next
    case (Inr s')
    with connected_initializeTrack [OF Inr] Initialize show ?thesis by simp
  qed
next
  case (Generate d)
  assume "connected (track s)"
  with Generate show ?thesis by (simp add: connected_generate)
next
  case Evict
  assume "connected (track s)"
  with Evict show ?thesis by (simp add: connected_remove)
qed

lemma connected_track_run: "connected (track s) \<Longrightarrow> connected (track (track_run ops s))"
  by (induction ops arbitrary: s) (simp_all add: connected_track_step)

subsection \<open>The rocket update and the frame\<close>

lemma updateRocket_throws: "fst (updateRocket dt c objs s) = ReferenceError ''Controls''"
  by (simp add: updateRocket_def Let_def split: prod.splits)

lemma updateRocket_timers:
  "snd (updateRocket dt c objs s) =
     (if isBoosting (rocket s) \<and> boostTimeRemaining (rocket s) - dt \<le> 0
      then [(BOOST_COOLDOWN, ClearBoostCooldown)] else [])"
  by (simp add: updateRocket_def boostTimer_def Let_def split: prod.splits)

lemma updateRocket_eq:
  "updateRocket dt c objs s =
     (ReferenceError ''Controls'',
      if isBoosting (rocket s) \<and> boostTimeRemaining (rocket s) - dt \<le> 0
      then [(BOOST_COOLDOWN, ClearBoostCooldown)] else [])"
  using updateRocket_throws [of dt c objs s] updateRocket_timers [of dt c objs s]
  by (cases "updateRocket dt c objs s") simp

lemma gameFrame_not_playing: "p \<noteq> PLAYING \<Longrightarrow> gameFrame p dt c objs s = (Inr s, [])"
  by (simp add: gameFrame_def Let_def)

lemma gameFrame_playing:
  "gameFrame PLAYING dt c objs s =
     (Inl (ReferenceError ''Controls''), snd (updateRocket (min dt 0.1 * 1000) c objs s))"
  by (simp add: gameFrame_def Let_def updateRocket_eq)

lemma gameFrame_store: "storeAfter s (fst (gameFrame p dt c objs s)) = s"
  by (cases "p = PLAYING") (simp_all add: gameFrame_playing gameFrame_not_playing)





subsection \<open>Collision detection\<close>

lemma checkpointPass_step:
  "checkpointPass p pp r seg =
     (if crossed p pp seg then r\<lparr> cp_collided := True, cp_id := seg_id seg \<rparr> else r)"
  by (simp add: checkpointPass_def crossed_def)

lemma checkpointPass_fold:
  "foldl (checkpointPass p pp) r segs =
     (if filter (crossed p pp) segs = [] then r
      else r\<lparr> cp_collided := True, cp_id := seg_id (last (filter (crossed p pp) segs)) \<rparr>)"
proof (induction segs rule: rev_induct)
  case Nil
  show ?case by simp
next
  case (snoc seg segs)
  have "foldl (checkpointPass p pp) r (segs @ [seg])
          = checkpointPass p pp (foldl (checkpointPass p pp) r segs) seg"
    by (simp only: foldl_append foldl.simps)
  also have "\<dots> = (if crossed p pp seg
                    then (foldl (checkpointPass p pp) r segs)
                           \<lparr> cp_collided := True, cp_id := seg_id seg \<rparr>
                    else foldl (checkpointPass p pp) r segs)"
    by (rule checkpointPass_step)
  finally show ?case
    by (simp add: snoc.IH)
qed

lemma checkpoint_report_last_aux:
  "cp_id (detectCollisions p pp sz segs hzs pus) =
     (if filter (crossed p pp) segs = [] then - 1
      else seg_id (last (filter (crossed p pp) segs)))"
  by (simp add: detectCollisions_def checkpointPass_fold Let_def)

lemma gates_crossed:
  "crossed (Vector3 0 0 (- 300)) (Vector3 0 0 0) gateA \<and>
   crossed (Vector3 0 0 (- 300)) (Vector3 0 0 0) gateB"
  by (simp add: crossed_def checkCheckpointCollision_def gateA_def gateB_def
      distanceToPoint_def dot_def projectOnPlane_def subVectors_def multiplyScalar_def
      vlength_def Let_def)

subsection \<open>Reachable states\<close>

lemma aligned_initializeTrack:
  assumes "initializeTrack draws s = Inr s'"
  shows "list_all aligned (track s')"
proof -
  have "aligned seg" if "seg \<in> set (track s')" for seg
  proof -
    from that have "(seg_id seg, isCheckpoint seg)
        \<in> set (map (\<lambda>seg. (seg_id seg, isCheckpoint seg)) (track s'))"
      by (simp add: image_iff) blast
    then show ?thesis
      unfolding initializeTrack_flags [OF assms]
      by (auto simp: aligned_def CHECKPOINT_INTERVAL_def)
  qed
  then show ?thesis by (simp add: list_all_iff)
qed

lemma aligned_remove:
  "list_all aligned (track s) \<Longrightarrow> list_all aligned (track (removeOldTrackSegment s))"
  by (auto simp: removeOldTrackSegment_def Let_def split: list.splits)

lemma remove_lastCheckpointId [simp]:
  "lastCheckpointId (removeOldTrackSegment s) = lastCheckpointId s"
  by (simp add: removeOldTrackSegment_def Let_def split: list.splits)

lemma keep_lastCheckpointId [simp]:
  "lastCheckpointId (updateTime dt s) = lastCheckpointId s"
  "lastCheckpointId (activatePowerUp ty s) = lastCheckpointId s"
  "lastCheckpointId (endGame won s) = lastCheckpointId s"
  "lastCheckpointId (runTimer cb s) = lastCheckpointId s"
  by (simp_all add: updateTime_def activatePowerUp_def endGame_def runTimer_def Let_def
      split: timer.splits)

lemma keep_track [simp]:
  "track (updateTime dt s) = track s"
  "track (activatePowerUp ty s) = track s"
  "track (endGame won s) = track s"
  "track (runTimer cb s) = track s"
  by (simp_all add: updateTime_def activatePowerUp_def endGame_def runTimer_def Let_def
      split: timer.splits)

lemma inv_initial: "checkpointsAligned initialState"
  by (simp add: checkpointsAligned_def initialState_def)

lemma inv_initializeTrack:
  assumes "checkpointsAligned s"
  shows "checkpointsAligned (storeAfter s (initializeTrack draws s))"
proof (cases "initializeTrack draws s")
  case (Inl e)
  with assms show ?thesis by simp
next
  case (Inr s')
  from aligned_initializeTrack [OF Inr] initializeTrack_race(7) [OF Inr] assms
  show ?thesis by (simp add: Inr checkpointsAligned_def)
qed

lemma inv_startGame:
  assumes "checkpointsAligned s"
  shows "checkpointsAligned (storeAfter s (startGame draws s))"
proof (cases "initializeTrack draws s")
  case (Inl e)
  with assms show ?thesis by (simp add: startGame_def)
next
  case (Inr s')
  from aligned_initializeTrack [OF Inr] initializeTrack_race(7) [OF Inr] assms
  show ?thesis by (simp add: Inr startGame_def checkpointsAligned_def)
qed

lemma inv_restartGame:
  assumes "checkpointsAligned s"
  shows "checkpointsAligned (storeAfter s (restartGame draws s))"
proof (cases "initializeTrack draws s")
  case (Inl e)
  with assms show ?thesis by (simp add: restartGame_def)
next
  case (Inr s')
  from aligned_initializeTrack [OF Inr] initializeTrack_race(7) [OF Inr] assms
  show ?thesis by (simp add: Inr restartGame_def checkpointsAligned_def)
qed

lemma inv_generate_returns:
  assumes "checkpointsAligned s" and "generateNewTrackSegment d s = Inr s'"
  shows "checkpointsAligned s'"
  using generate_returns [OF assms(2)]
proof (elim disjE exE conjE)
  assume "s' = s"
  with assms(1) show ?thesis by simp
next
  fix n
  assume s': "s' = s\<lparr> track := track s @ [n] \<rparr>"
    and flag: "isCheckpoint n = (seg_id n mod CHECKPOINT_INTERVAL = 0)"
  from flag have "aligned n" unfolding aligned_def by (rule iffD1 [THEN impI])
  with assms(1) show ?thesis by (simp add: s' checkpointsAligned_def)
qed

lemma inv_generate:
  assumes "checkpointsAligned s"
  shows "checkpointsAligned (storeAfter s (generateNewTrackSegment d s))"
proof (cases "generateNewTrackSegment d s")
  case (Inl e)
  with assms show ?thesis by simp
next
  case (Inr s')
  with inv_generate_returns [OF assms Inr] show ?thesis by simp
qed

lemma inv_remove: "checkpointsAligned s \<Longrightarrow> checkpointsAligned (removeOldTrackSegment s)"
  by (simp add: checkpointsAligned_def aligned_remove)

lemma inv_simple:
  "checkpointsAligned s \<Longrightarrow> checkpointsAligned (updateTime dt s)"
  "checkpointsAligned s \<Longrightarrow> checkpointsAligned (activatePowerUp ty s)"
  "checkpointsAligned s \<Longrightarrow> checkpointsAligned (endGame won s)"
  "checkpointsAligned s \<Longrightarrow> checkpointsAligned (runTimer cb s)"
  by (simp_all add: checkpointsAligned_def)

lemma inv_checkpointPassed:
  "checkpointsAligned s \<Longrightarrow> checkpointsAligned (checkpointPassed i s)"
  using checkpointPassed_mono [of s i] by (simp add: checkpointsAligned_def)

lemma inv_evict:
  assumes "checkpointsAligned s1"
  shows "checkpointsAligned
      (updateTime dt (case track s1 of [] \<Rightarrow> s1
         | firstSegment # x \<Rightarrow>
             if distanceTo pos (seg_start firstSegment) > SEGMENT_LENGTH * 3
             then removeOldTrackSegment s1 else s1))"
proof (cases "track s1")
  case Nil
  with assms show ?thesis by (simp add: inv_simple)
next
  case (Cons firstSegment rest)
  with assms show ?thesis by (simp add: inv_simple inv_remove)
qed

lemma inv_updateGameState:
  assumes "checkpointsAligned s"
  shows "checkpointsAligned (storeAfter s (updateGameState d dt s))"
proof (cases "phase s = PLAYING")
  case False
  with assms show ?thesis by (simp add: updateGameState_def)
next
  case True
  let ?generated = "case track s of [] \<Rightarrow> Inr s
    | x # xs \<Rightarrow> if distanceTo (position (rocket s)) (seg_end (last (track s)))
                      < SEGMENT_LENGTH * 2
                 then generateNewTrackSegment d s else Inr s"
  have gen: "checkpointsAligned s1" if "?generated = Inr s1" for s1
  proof (cases "?generated = generateNewTrackSegment d s")
    case True
    with that assms show ?thesis by (simp add: inv_generate_returns)
  next
    case False
    then have "?generated = Inr s" by (simp split: list.splits if_splits)
    with that assms show ?thesis by simp
  qed
  show ?thesis
  proof (cases ?generated)
    case (Inl e)
    with True assms show ?thesis by (simp add: updateGameState_def Let_def)
  next
    case (Inr s1)
    from gen [OF Inr] have "checkpointsAligned s1" .
    from inv_evict [OF this, of dt "position (rocket s)"] True Inr
    show ?thesis by (simp add: updateGameState_def Let_def)
  qed
qed

lemma reachable_aligned: "reachable s \<Longrightarrow> checkpointsAligned s"
proof (induction rule: reachable.induct)
  case r_initial
  show ?case by (rule inv_initial)
next
  case (r_startGame s draws)
  then show ?case by (simp add: inv_startGame)
next
  case (r_restartGame s draws)
  then show ?case by (simp add: inv_restartGame)
next
  case (r_endGame s won)
  then show ?case by (simp add: inv_simple)
next
  case (r_activatePowerUp s ty)
  then show ?case by (simp add: inv_simple)
next
  case (r_updateGameState s d dt)
  then show ?case by (simp add: inv_updateGameState)
next
  case (r_generate s d)
  then show ?case by (simp add: inv_generate)
next
  case (r_remove s)
  then show ?case by (simp add: inv_remove)
next
  case (r_checkpointPassed s i)
  then show ?case by (simp add: inv_checkpointPassed)
next
  case (r_updateTime s dt)
  then show ?case by (simp add: inv_simple)
next
  case (r_initializeTrack s draws)
  then show ?case by (simp add: inv_initializeTrack)
next
  case (r_gameFrame s p dt c objs)
  then show ?case by (simp add: gameFrame_store)
next
  case (r_callback s cb)
  then show ?case by (simp add: inv_simple)
qed

lemma checkpointPassed_changes: "checkpointPassed i s \<noteq> s \<Longrightarrow> lastCheckpointId s < i"
  by (rule ccontr) (simp add: checkpointPassed_ignored)

lemma racing_gate:
  "track racing ! 3 \<in> set (track racing) \<and> seg_id (track racing ! 3) = 3 \<and>
   isCheckpoint (track racing ! 3)"
proof -
  have len: "length (track racing) = 6"
    using arg_cong [OF racing_track, of length] by simp
  then have "(seg_id (track racing ! 3), isCheckpoint (track racing ! 3))
               = map (\<lambda>seg. (seg_id seg, isCheckpoint seg)) (track racing) ! 3"
    by simp
  also have "\<dots> = (3, True)" by (simp add: racing_track)
  finally show ?thesis using len by simp
qed

lemma racing_reachable: "reachable racing"
  unfolding racing_def by (intro reachable.r_startGame reachable.r_initial)

lemma racing_scores: "checkpointPassed 3 racing \<noteq> racing"
proof
  assume "checkpointPassed 3 racing = racing"
  then have "score (checkpointPassed 3 racing) = score racing" by simp
  then show False
    by (simp add: checkpointPassed_def racing_fields CHECKPOINT_INTERVAL_def)
qed

lemma atRest_simple:
  "atRest s \<Longrightarrow> atRest (updateTime dt s)"
  "atRest s \<Longrightarrow> atRest (activatePowerUp ty s)"
  "atRest s \<Longrightarrow> atRest (endGame won s)"
  "atRest s \<Longrightarrow> atRest (runTimer cb s)"
  "atRest s \<Longrightarrow> atRest (checkpointPassed i s)"
  by (simp_all add: atRest_def updateTime_def activatePowerUp_def endGame_def runTimer_def
      Let_def split: timer.splits)

lemma atRest_remove: "atRest s \<Longrightarrow> atRest (removeOldTrackSegment s)"
  by (simp add: atRest_def removeOldTrackSegment_def Let_def split: list.splits)

lemma atRest_initializeTrack:
  assumes "atRest s"
  shows "atRest (storeAfter s (initializeTrack draws s))"
proof (cases "initializeTrack draws s")
  case (Inl e)
  with assms show ?thesis by simp
next
  case (Inr s')
  from initializeTrack_race(8) [OF Inr] initializeTrack_objects [OF Inr] assms
  show ?thesis by (simp add: Inr atRest_def)
qed

lemma atRest_reset:
  assumes "initializeTrack draws s = Inr s1"
  shows "atRest (s1\<lparr> phase := p, time := 0, score := 0, lap := 1, lapTimes := [],
                     rocket := resetRocket (rocket s) \<rparr>)"
  using initializeTrack_objects [OF assms] by (simp add: atRest_def resetRocket_def)

lemma atRest_startGame:
  assumes "atRest s"
  shows "atRest (storeAfter s (startGame draws s))"
proof (cases "initializeTrack draws s")
  case (Inl e)
  with assms show ?thesis by (simp add: startGame_def)
next
  case (Inr s1)
  from atRest_reset [OF Inr, of PLAYING] assms show ?thesis by (simp add: Inr startGame_def)
qed

lemma atRest_restartGame:
  assumes "atRest s"
  shows "atRest (storeAfter s (restartGame draws s))"
proof (cases "initializeTrack draws s")
  case (Inl e)
  with assms show ?thesis by (simp add: restartGame_def)
next
  case (Inr s1)
  from atRest_reset [OF Inr, of READY] show ?thesis by (simp add: Inr restartGame_def)
qed

lemma atRest_generate_returns:
  assumes "atRest s" and "generateNewTrackSegment d s = Inr s'"
  shows "atRest s'"
  using generate_returns [OF assms(2)] assms(1) by (auto simp: atRest_def)

lemma atRest_generate:
  assumes "atRest s"
  shows "atRest (storeAfter s (generateNewTrackSegment d s))"
proof (cases "generateNewTrackSegment d s")
  case (Inl e)
  with assms show ?thesis by simp
next
  case (Inr s')
  with atRest_generate_returns [OF assms Inr] show ?thesis by simp
qed

lemma atRest_evict:
  assumes "atRest s1"
  shows "atRest
      (updateTime dt (case track s1 of [] \<Rightarrow> s1
         | firstSegment # x \<Rightarrow>
             if distanceTo pos (seg_start firstSegment) > SEGMENT_LENGTH * 3
             then removeOldTrackSegment s1 else s1))"
proof (cases "track s1")
  case Nil
  with assms show ?thesis by (simp add: atRest_simple)
next
  case (Cons firstSegment rest)
  with assms show ?thesis by (simp add: atRest_simple atRest_remove)
qed

lemma atRest_updateGameState:
  assumes "atRest s"
  shows "atRest (storeAfter s (updateGameState d dt s))"
proof (cases "phase s = PLAYING")
  case False
  with assms show ?thesis by (simp add: updateGameState_def)
next
  case True
  let ?generated = "case track s of [] \<Rightarrow> Inr s
    | x # xs \<Rightarrow> if distanceTo (position (rocket s)) (seg_end (last (track s)))
                      < SEGMENT_LENGTH * 2
                 then generateNewTrackSegment d s else Inr s"
  have gen: "atRest s1" if "?generated = Inr s1" for s1
  proof (cases "?generated = generateNewTrackSegment d s")
    case True
    with that assms show ?thesis by (simp add: atRest_generate_returns)
  next
    case False
    then have "?generated = Inr s" by (simp split: list.splits if_splits)
    with that assms show ?thesis by simp
  qed
  show ?thesis
  proof (cases ?generated)
    case (Inl e)
    with True assms show ?thesis by (simp add: updateGameState_def Let_def)
  next
    case (Inr s1)
    from gen [OF Inr] have "atRest s1" .
    from atRest_evict [OF this, of dt "position (rocket s)"] True Inr
    show ?thesis by (simp add: updateGameState_def Let_def)
  qed
qed

lemma reachable_atRest: "reachable s \<Longrightarrow> atRest s"
proof (induction rule: reachable.induct)
  case r_initial
  show ?case by (simp add: atRest_def initialState_def initialRocket_def)
next
  case (r_startGame s draws)
  then show ?case by (simp add: atRest_startGame)
next
  case (r_restartGame s draws)
  then show ?case by (simp add: atRest_restartGame)
next
  case (r_endGame s won)
  then show ?case by (simp add: atRest_simple)
next
  case (r_activatePowerUp s ty)
  then show ?case by (simp add: atRest_simple)
next
  case (r_updateGameState s d dt)
  then show ?case by (simp add: atRest_updateGameState)
next
  case (r_generate s d)
  then show ?case by (simp add: atRest_generate)
next
  case (r_remove s)
  then show ?case by (simp add: atRest_remove)
next
  case (r_checkpointPassed s i)
  then show ?case by (simp add: atRest_simple)
next
  case (r_updateTime s dt)
  then show ?case by (simp add: atRest_simple)
next
  case (r_initializeTrack s draws)
  then show ?case by (simp add: atRest_initializeTrack)
next
  case (r_gameFrame s p dt c objs)
  then show ?case by (simp add: gameFrame_store)
next
  case (r_callback s cb)
  then show ?case by (simp add: atRest_simple)
qed

subsection \<open>The concrete runs\<close>



lemma generate_calm:
  assumes "track s \<noteq> []" and "\<not> r_hazard d < 0.7" and "\<not> r_powerup d < 0.3"
  shows "\<exists>n. generateNewTrackSegment d s = Inr (s\<lparr> track := track s @ [n] \<rparr>)"
proof (cases "generateNewTrackSegment d s")
  case (Inl e)
  with assms show ?thesis
    by (cases "track s") (simp_all add: generateNewTrackSegment_def Let_def)
next
  case (Inr s')
  from generate_returns [OF Inr] assms(1) obtain n where "s' = s\<lparr> track := track s @ [n] \<rparr>"
    by (elim disjE exE conjE) simp_all
  with Inr show ?thesis by blast
qed






subsection \<open>Restart\<close>




subsection \<open>Checkpoint monotonicity\<close>

text \<open>
  C2: along every sequence of checkpoint events the last-accepted checkpoint id never
  decreases (its value after a prefix of the events is at most its value after any
  longer run), and an event whose id is at most the last-accepted id leaves score,
  lap, lap times, best lap time, elapsed time and the last-accepted id unchanged.
\<close>

theorem checkpoint_monotonic:
  "lastCheckpointId (checkpointEvents before s)
     \<le> lastCheckpointId (checkpointEvents (before @ after) s) \<and>
   (i \<le> lastCheckpointId s \<longrightarrow>
      score (checkpointPassed i s) = score s \<and> lap (checkpointPassed i s) = lap s \<and>
      lapTimes (checkpointPassed i s) = lapTimes s \<and>
      bestLapTime (checkpointPassed i s) = bestLapTime s \<and>
      time (checkpointPassed i s) = time s \<and>
      lastCheckpointId (checkpointPassed i s) = lastCheckpointId s)"
  by (simp add: checkpointEvents_append checkpointEvents_mono checkpointPassed_ignored)

text \<open>
  The same at a concrete run: checkpoint 3 accepted, then 3 again, 6 and 2.
\<close>

theorem checkpoint_monotonic_witness:
  "lastCheckpointId (checkpointEvents [3] (checkpointPassed 3 initialState))
     \<le> lastCheckpointId (checkpointEvents ([3] @ [6, 2]) (checkpointPassed 3 initialState)) \<and>
   (3::int) \<le> lastCheckpointId (checkpointPassed 3 initialState) \<and>
   score (checkpointPassed 3 (checkpointPassed 3 initialState)) = 100 \<and>
   lastCheckpointId (checkpointEvents ([3] @ [6, 2]) (checkpointPassed 3 initialState)) = 6"
  using checkpoint_monotonic
    [where before = "[3]" and s = "checkpointPassed 3 initialState" and after = "[6, 2]" and i = 3]
  by (simp add: checkpointPassed_def initialState_def CHECKPOINT_INTERVAL_def)

subsection \<open>Speed clamp\<close>


subsection \<open>Health depletion\<close>


subsection \<open>Segment connectivity\<close>

text \<open>
  C5: in every window produced by a run of initialization, segment generation and
  eviction (from the initial state, or from any state in which an initialization has
  run to completion), each segment starts exactly where its predecessor ends and
  carries its predecessor's id plus one.
\<close>

theorem segment_connectivity:
  "connected (track (track_run ops initialState)) \<and>
   (initializeTrack draws s = Inr s' \<longrightarrow> connected (track (track_run ops s')))"
  by (simp add: connected_track_run connected_initializeTrack initialState_def)

text \<open>
  C5 at a track initialized with calm draws after a lap, extended by one segment and
  trimmed by one.
\<close>

theorem segment_connectivity_witness:
  "initializeTrack (\<lambda>i. calmDraws) lapDone
     = Inr (storeAfter lapDone (initializeTrack (\<lambda>i. calmDraws) lapDone)) \<and>
   connected (track (track_run [Generate calmDraws, Evict]
     (storeAfter lapDone (initializeTrack (\<lambda>i. calmDraws) lapDone)))) \<and>
   length (track (track_run [Generate calmDraws, Evict]
     (storeAfter lapDone (initializeTrack (\<lambda>i. calmDraws) lapDone)))) = 6"
proof -
  from initializeTrack_completes [OF calm_places_nothing, of lapDone]
  obtain s' where i: "initializeTrack (\<lambda>i. calmDraws) lapDone = Inr s'" by blast
  from initializeTrack_flags [OF i] have len: "length (track s') = 6"
    using arg_cong [of _ _ length] by fastforce
  then have ne: "track s' \<noteq> []" by auto
  from generate_calm [OF ne, of calmDraws] obtain n where
    g: "generateNewTrackSegment calmDraws s' = Inr (s'\<lparr> track := track s' @ [n] \<rparr>)"
    by (auto simp: calmDraws_def)
  obtain a rest where tr: "track s' = a # rest" using ne by (cases "track s'") auto
  with len have "length rest = 5" by simp
  then have "length (track (removeOldTrackSegment (s'\<lparr> track := track s' @ [n] \<rparr>))) = 6"
    by (cases rest) (simp_all add: removeOldTrackSegment_def tr Let_def)
  with segment_connectivity [of "[Generate calmDraws, Evict]" "\<lambda>i. calmDraws" lapDone s'] i g
  show ?thesis by simp
qed

subsection \<open>Eviction of hazards and power-ups\<close>


subsection \<open>The checkpoint reported by detectCollisions\<close>

text \<open>
  C7, as the claim states it, fails: one step from \<open>z = 0\<close> to \<open>z = -300\<close> crosses
  the planes of the checkpoint segments 3 and 6, in this order in the track, and the
  result reports 6, not 3.
\<close>

theorem checkpoint_report_first_counterexample:
  "crossed (Vector3 0 0 (- 300)) (Vector3 0 0 0) gateA \<and>
   crossed (Vector3 0 0 (- 300)) (Vector3 0 0 0) gateB \<and>
   seg_id gateA = 3 \<and>
   cp_id (detectCollisions (Vector3 0 0 (- 300)) (Vector3 0 0 0) (Vector3 2 2 4)
            [gateA, gateB] [] []) = 6"
  using gates_crossed checkpoint_report_last_aux
    [of "Vector3 0 0 (- 300)" "Vector3 0 0 0" "Vector3 2 2 4" "[gateA, gateB]" "[]" "[]"]
  by (simp add: gateA_def gateB_def)

text \<open>
  C7 (amended): \<^verbatim>\<open>detectCollisions\<close> reports at most one checkpoint crossing per call:
  a crossing is reported exactly when some checkpoint segment meets the crossing
  condition, and the reported id is that of the last such segment in segment order
  (\<open>-1\<close> when there is none).
\<close>

theorem checkpoint_report_last:
  "cp_collided (detectCollisions p pp sz segs hzs pus) = (filter (crossed p pp) segs \<noteq> []) \<and>
   cp_id (detectCollisions p pp sz segs hzs pus) =
     (if filter (crossed p pp) segs = [] then - 1
      else seg_id (last (filter (crossed p pp) segs)))"
  by (simp add: detectCollisions_def checkpointPass_fold Let_def)

subsection \<open>Checkpoints outside a race\<close>

text \<open>
  C8, as the claim states it, fails: \<^verbatim>\<open>checkpointPassed\<close> does not look at the phase.
  In the initial state, whose phase is Ready, checkpoint 3 is accepted and scores.
\<close>

theorem checkpointPassed_unguarded_counterexample:
  "phase initialState = READY \<and> score initialState = 0 \<and>
   score (checkpointPassed 3 initialState) = 100 \<and>
   lastCheckpointId (checkpointPassed 3 initialState) = 3"
  by (simp add: checkpointPassed_def initialState_def CHECKPOINT_INTERVAL_def)

text \<open>
  C8 (amended): the guard is in the game loop. In a frame that finds the phase Ready,
  GameOver or Finished, no collision and so no checkpoint crossing is processed: the
  frame leaves score, lap, lap times, best lap time, elapsed time and the last-accepted
  checkpoint id unchanged and schedules no callback. The same holds of a frame whose
  rendered phase, whatever the store holds by then, is not Playing.
\<close>

theorem gate_on_phase:
  "(phase s \<noteq> PLAYING \<longrightarrow>
     snd (gameFrame (phase s) frameTime c objs s) = [] \<and>
     score (storeAfter s (fst (gameFrame (phase s) frameTime c objs s))) = score s \<and>
     lap (storeAfter s (fst (gameFrame (phase s) frameTime c objs s))) = lap s \<and>
     lapTimes (storeAfter s (fst (gameFrame (phase s) frameTime c objs s))) = lapTimes s \<and>
     bestLapTime (storeAfter s (fst (gameFrame (phase s) frameTime c objs s))) = bestLapTime s \<and>
     time (storeAfter s (fst (gameFrame (phase s) frameTime c objs s))) = time s \<and>
     lastCheckpointId (storeAfter s (fst (gameFrame (phase s) frameTime c objs s)))
       = lastCheckpointId s) \<and>
   (p \<noteq> PLAYING \<longrightarrow> gameFrame p frameTime c objs s = (Inr s, []))"
  by (simp add: gameFrame_not_playing)

text \<open>
  The amended C8 at the initial state, with a collision object in reach.
\<close>

theorem gate_on_phase_witness:
  "phase initialState \<noteq> PLAYING \<and>
   score (storeAfter initialState
     (fst (gameFrame (phase initialState) 0.016 idle [hazardAtStart] initialState))) = 0 \<and>
   lastCheckpointId (storeAfter initialState
     (fst (gameFrame (phase initialState) 0.016 idle [hazardAtStart] initialState))) = 0 \<and>
   GAME_OVER \<noteq> PLAYING \<and>
   gameFrame GAME_OVER 0.016 idle [hazardAtStart] initialState = (Inr initialState, [])"
  using gate_on_phase [of initialState "0.016" idle "[hazardAtStart]" GAME_OVER]
  by (simp add: initialState_def)

subsection \<open>Boost cooldown\<close>


subsection \<open>The first checkpoint that scores\<close>

text \<open>
  C10: the track that a completed \<^verbatim>\<open>initializeTrack\<close> builds has the ids 0 to 5 with
  segments 0 and 3 flagged as checkpoints; the last-accepted checkpoint id starts at
  0; in every reachable state \<^verbatim>\<open>checkpointPassed(0)\<close> changes nothing; in every
  reachable state a segment of the track that is flagged as a checkpoint and whose
  crossing changes the state has an id of at least 3; and after \<^verbatim>\<open>startGame\<close> in the
  initial state checkpoint 3 does score.
\<close>

theorem first_scoring_checkpoint:
  "(initializeTrack draws s0 = Inr s1 \<longrightarrow>
      map (\<lambda>seg. (seg_id seg, isCheckpoint seg)) (track s1)
        = [(0, True), (1, False), (2, False), (3, True), (4, False), (5, False)]) \<and>
   lastCheckpointId initialState = 0 \<and>
   (reachable s \<longrightarrow> checkpointPassed 0 s = s) \<and>
   (reachable s \<and> seg \<in> set (track s) \<and> isCheckpoint seg \<and>
    checkpointPassed (seg_id seg) s \<noteq> s \<longrightarrow> 3 \<le> seg_id seg) \<and>
   score (checkpointPassed 3 (storeAfter initialState (startGame draws initialState))) = 100"
proof -
  have zero: "checkpointPassed 0 s = s" if "reachable s"
    using reachable_aligned [OF that] by (simp add: checkpointsAligned_def checkpointPassed_ignored)
  have three: "3 \<le> seg_id seg"
    if "reachable s" "seg \<in> set (track s)" "isCheckpoint seg"
       "checkpointPassed (seg_id seg) s \<noteq> s"
  proof -
    from reachable_aligned [OF that(1)] that(2,3)
    have "0 \<le> lastCheckpointId s" "seg_id seg mod 3 = 0"
      by (auto simp: checkpointsAligned_def list_all_iff aligned_def CHECKPOINT_INTERVAL_def)
    moreover from that(4) have "lastCheckpointId s < seg_id seg"
      by (rule checkpointPassed_changes)
    ultimately show ?thesis by presburger
  qed
  let ?st = "storeAfter initialState (startGame draws initialState)"
  have st: "lastCheckpointId ?st = 0 \<and> score ?st = 0"
  proof (cases "startGame draws initialState")
    case (Inl e)
    have "lastCheckpointId initialState = 0 \<and> score initialState = 0"
      by (simp add: initialState_def)
    then show ?thesis by (simp add: Inl)
  next
    case (Inr s')
    have ready: "phase initialState = READY" by (simp add: initialState_def)
    from startGame_returns [OF Inr ready] obtain t where
      t: "initializeTrack draws initialState = Inr t" and
      s': "s' = t\<lparr> phase := PLAYING, time := 0, score := 0, lap := 1, lapTimes := [],
                    rocket := resetRocket (rocket initialState) \<rparr>"
      by blast
    from initializeTrack_race(7) [OF t] have "lastCheckpointId t = 0"
      by (simp add: initialState_def)
    then show ?thesis by (simp add: Inr s')
  qed
  have start: "score (checkpointPassed 3 ?st) = 100"
    using st by (simp add: checkpointPassed_def CHECKPOINT_INTERVAL_def)
  show ?thesis
    using zero three start initializeTrack_flags [of draws s0 s1]
    by (simp add: initialState_def)
qed

text \<open>
  C10 at the start of a race with calm draws, for the fourth segment of the track.
\<close>

theorem first_scoring_checkpoint_witness:
  "startGame (\<lambda>i. calmDraws) initialState = Inr racing \<and>
   initializeTrack (\<lambda>i. calmDraws) initialState
     = Inr (storeAfter initialState (initializeTrack (\<lambda>i. calmDraws) initialState)) \<and>
   map (\<lambda>seg. (seg_id seg, isCheckpoint seg))
       (track (storeAfter initialState (initializeTrack (\<lambda>i. calmDraws) initialState)))
     = [(0, True), (1, False), (2, False), (3, True), (4, False), (5, False)] \<and>
   reachable racing \<and> track racing ! 3 \<in> set (track racing) \<and>
   isCheckpoint (track racing ! 3) \<and>
   checkpointPassed (seg_id (track racing ! 3)) racing \<noteq> racing \<and>
   3 \<le> seg_id (track racing ! 3) \<and>
   checkpointPassed 0 racing = racing"
proof -
  from initializeTrack_completes [OF calm_places_nothing, of initialState]
  obtain s1 where i: "initializeTrack (\<lambda>i. calmDraws) initialState = Inr s1" by blast
  from first_scoring_checkpoint
      [where s = racing and seg = "track racing ! 3" and draws = "\<lambda>i. calmDraws"
         and ?s0.0 = initialState and ?s1.0 = s1]
    i racing_reachable racing_gate racing_scores startGame_calm
  show ?thesis by simp
qed

end
